theory Spec2Isabelle
  imports Complex_Main "HOL-Library.AList" "HOL-Library.Multiset"
begin

section \<open>Data model\<close>

text \<open>
  The tracker (\<^verbatim>\<open>src/unnamed/part_002\<close>, the file that imports
  \<^verbatim>\<open>../trading/trader.js\<close> and \<^verbatim>\<open>../stats/metrics.js\<close>) keeps its balances in
  JavaScript \<^verbatim>\<open>Map<string, number>\<close> objects. A \<^verbatim>\<open>Map\<close> iterates in insertion order,
  \<^verbatim>\<open>set\<close> on a present key overwrites in place and on an absent key appends, so a map
  is an association list and \<^verbatim>\<open>set\<close>/\<^verbatim>\<open>delete\<close> are \<open>AList.update\<close>/\<open>AList.delete\<close>.

  Balances are JavaScript doubles. They are modelled as exact reals: rounding, infinities
  and NaN inside a balance map are outside the model (the one place where the source can
  meet NaN, \<^verbatim>\<open>parseFloat\<close>, is modelled with an option).
\<close>

type_synonym token = string
type_synonym balance_map = "(token \<times> real) list"

definition has :: "balance_map \<Rightarrow> token \<Rightarrow> bool" where
  \<comment> \<open>\<^verbatim>\<open>m.has(token)\<close>\<close>
  "has m tok = (map_of m tok \<noteq> None)"

definition get_or0 :: "balance_map \<Rightarrow> token \<Rightarrow> real" where
  \<comment> \<open>\<^verbatim>\<open>m.get(token) || 0\<close>: an absent key and a stored 0 both read as 0\<close>
  "get_or0 m tok = (case map_of m tok of None \<Rightarrow> 0 | Some v \<Rightarrow> v)"

definition keys :: "balance_map \<Rightarrow> token list" where
  \<comment> \<open>\<^verbatim>\<open>Array.from(new Set(m.keys()))\<close>, in insertion order\<close>
  "keys m = map fst m"

definition solMint :: token where
  "solMint = ''So11111111111111111111111111111111111111112''"

text \<open>\<^verbatim>\<open>SwapResult\<close> of the trader module, and the metrics state of
  \<^verbatim>\<open>src/unnamed/part_005\<close> (\<^verbatim>\<open>stats/metrics\<close>).\<close>

record SwapResult =
  success :: bool
  outAmount :: real
  signature :: "string option"
  dex :: "string option"

record PerformanceMetrics =
  latencies :: "int list"
  successfulTrades :: nat
  totalTrades :: nat
  apiCallCount :: nat

definition resetMetrics :: PerformanceMetrics where
  "resetMetrics = \<lparr>latencies = [], successfulTrades = 0, totalTrades = 0, apiCallCount = 0\<rparr>"

definition updatePerformanceMetrics ::
  "nat \<Rightarrow> int \<Rightarrow> bool \<Rightarrow> PerformanceMetrics \<Rightarrow> PerformanceMetrics" where
  "updatePerformanceMetrics tradeCnt latency succ currentMetrics =
     \<lparr>latencies = latencies currentMetrics @ [latency],
      successfulTrades = successfulTrades currentMetrics + (if succ then 1 else 0),
      totalTrades = totalTrades currentMetrics + 1,
      apiCallCount = apiCallCount currentMetrics\<rparr>"

section \<open>Snapshot fetch\<close>

text \<open>
  \<^verbatim>\<open>getWalletTokenBalances\<close> (part_002, lines 91-119) asks the chain client for the
  parsed token accounts of a wallet inside a \<^verbatim>\<open>try\<close> block. Everything that can throw
  there is a branch of the model: the client call itself (bad address, network error,
  a response that does not deserialize), and a property read on an account whose parsed
  data is missing (a \<^verbatim>\<open>TypeError\<close>), modelled by \<open>None\<close> in the account list.
  \<^verbatim>\<open>parseFloat\<close> never throws; its NaN is the \<open>None\<close> of \<open>uiAmount\<close>, and
  \<^verbatim>\<open>NaN > 0\<close> is false. The \<^verbatim>\<open>apiCallCount++\<close> before the \<^verbatim>\<open>try\<close> block only counts
  calls and is not part of the returned map.
\<close>

datatype fetch_error = InvalidPublicKey | NetworkError | DeserializationError | TypeError

record tokenAccount =
  mint :: token
  uiAmount :: "real option"

type_synonym chain_client = "string \<Rightarrow> fetch_error + tokenAccount option list"

fun collectPositive :: "tokenAccount option list \<Rightarrow> balance_map \<Rightarrow> fetch_error + balance_map" where
  "collectPositive [] tokenBalances = Inr tokenBalances"
| "collectPositive (None # rest) tokenBalances = Inl TypeError"
| "collectPositive (Some account # rest) tokenBalances =
     collectPositive rest
       (case uiAmount account of
          None \<Rightarrow> tokenBalances
        | Some balance \<Rightarrow>
            if balance > 0 then AList.update (mint account) balance tokenBalances
            else tokenBalances)"

definition getWalletTokenBalances :: "chain_client \<Rightarrow> string \<Rightarrow> balance_map" where
  "getWalletTokenBalances client walletAddress =
     (case client walletAddress of
        Inl err \<Rightarrow> []
      | Inr accounts \<Rightarrow>
          (case collectPositive accounts [] of
             Inl err \<Rightarrow> []
           | Inr tokenBalances \<Rightarrow> tokenBalances))"

text \<open>
  \<^verbatim>\<open>fetchCurrentTokenBalances\<close> of the older tracker (\<^verbatim>\<open>src/src/tracker.ts\<close>, lines
  11-36) has the same \<^verbatim>\<open>try\<close>/\<^verbatim>\<open>catch\<close> but stores every parsed amount, zero and
  NaN included; a stored NaN is kept as \<open>None\<close>.
\<close>

fun collectAll ::
  "tokenAccount option list \<Rightarrow> (token \<times> real option) list
     \<Rightarrow> fetch_error + (token \<times> real option) list" where
  "collectAll [] tokenBalances = Inr tokenBalances"
| "collectAll (None # rest) tokenBalances = Inl TypeError"
| "collectAll (Some account # rest) tokenBalances =
     collectAll rest (AList.update (mint account) (uiAmount account) tokenBalances)"

definition fetchCurrentTokenBalances :: "chain_client \<Rightarrow> string \<Rightarrow> (token \<times> real option) list" where
  "fetchCurrentTokenBalances client walletAddress =
     (case client walletAddress of
        Inl err \<Rightarrow> []
      | Inr accounts \<Rightarrow>
          (case collectAll accounts [] of
             Inl err \<Rightarrow> []
           | Inr tokenBalances \<Rightarrow> tokenBalances))"

text \<open>The \<^verbatim>\<open>try\<close> block of either fetch throws when the client call fails or when
  an account of the response cannot be read.\<close>

definition fetchThrows :: "chain_client \<Rightarrow> string \<Rightarrow> bool" where
  "fetchThrows client walletAddress =
     (case client walletAddress of
        Inl err \<Rightarrow> True
      | Inr accounts \<Rightarrow> None \<in> set accounts)"

section \<open>Tracker state and external collaborators\<close>

text \<open>
  The swap executor and the notifier are external. A call to either is recorded in
  \<open>calls\<close>, a log that the source does not keep and that only makes the calls
  observable; notification payloads (amounts, latency, signature, venue) are left out
  of the log. The executor is a function from the call to the \<^verbatim>\<open>SwapResult\<close> and the
  measured \<^verbatim>\<open>Date.now()\<close> difference in milliseconds.
\<close>

datatype swap_call =
    ExecuteSwapBuy token token real
  | ExecuteSwapSell token token real

datatype call =
    Swap swap_call
  | SendWalletNotification string string token
  | SendBotNotification string string token
  | SendTelegramMessage string string token


record environment =
  TRADE_AMOUNT_LAMPORTS :: real
  TRACKED_WALLET :: string
  botWallet :: string
  executor :: "swap_call \<Rightarrow> SwapResult \<times> int"

text \<open>The module-level variables of part_002 (lines 57-63). \<open>apiCallCounter\<close> is the
  module's \<^verbatim>\<open>apiCallCount\<close>, renamed because the metrics record has a field of that
  name.\<close>

record TrackerState =
  previousBalances :: balance_map
  botBalances :: balance_map
  apiCallCounter :: nat
  tradeCount :: nat
  metrics :: PerformanceMetrics
  calls :: "call list"

section \<open>The comparison pass\<close>

text \<open>
  \<^verbatim>\<open>compareBalances\<close> (part_002, lines 121-373) maps an async callback over the new
  tokens and another over the old tokens and awaits all of them. Each callback runs
  synchronously up to its first \<^verbatim>\<open>await\<close>, so every branch condition of the pass is
  evaluated, and every swap is handed to the executor, before any swap result is seen:
  \<open>tradeStep\<close> and \<open>sellStep\<close> are these synchronous prefixes, in iteration order, and
  \<open>settle\<close> is the code of a callback after its \<^verbatim>\<open>await\<close>.

  The names of the four branches follow the transition kinds of the specification; the
  source marks them with the comments ``Initial Buy'', ``Increase in Stake'',
  ``Decrease in Stake (Partial Sell)'' and ``Full Sell''.
\<close>

datatype kind = NEW_POSITION | INCREASE | PARTIAL_DECREASE | FULL_EXIT

definition tradeBranch :: "TrackerState \<Rightarrow> real \<Rightarrow> real \<Rightarrow> token \<Rightarrow> kind option" where
  \<comment> \<open>the \<^verbatim>\<open>if\<close>/\<^verbatim>\<open>else if\<close> chain of lines 142-146, 201 and 230\<close>
  "tradeBranch st oldBalance newBalance tok =
     (if newBalance > oldBalance \<and> \<not> has (botBalances st) tok
           \<and> \<not> has (previousBalances st) tok then Some NEW_POSITION
      else if newBalance > oldBalance then Some INCREASE
      else if newBalance < oldBalance \<and> newBalance > 0 then Some PARTIAL_DECREASE
      else None)"

definition fullSellBranch :: "TrackerState \<Rightarrow> balance_map \<Rightarrow> token \<Rightarrow> bool" where
  \<comment> \<open>the condition of line 313\<close>
  "fullSellBranch st newBalances tok =
     ((\<not> has newBalances tok \<or> get_or0 newBalances tok \<le> 1 / 1000)
        \<and> get_or0 (botBalances st) tok > 0)"

text \<open>
  The percent of a decrease (lines 231-232). The source computes it in doubles; here it is
  the exact quotient. The two differ by rounding, and where the new balance is tiny
  against the old one the double is exactly 100 (old 1e17, new 1), so no bound that
  separates the percent from 100 is stated about this definition.
\<close>

definition decreasePercent :: "real \<Rightarrow> real \<Rightarrow> real" where
  "decreasePercent oldBalance newBalance = ((oldBalance - newBalance) / oldBalance) * 100"

text \<open>A callback suspended at its \<^verbatim>\<open>await\<close> of the executor, with the variables its
  continuation still reads.\<close>

datatype pending =
    BuyPending string token
  | PartialSellPending string token real real
  | FullSellPending token

fun pendingToken :: "pending \<Rightarrow> token" where
  "pendingToken (BuyPending walletAddress tok) = tok"
| "pendingToken (PartialSellPending walletAddress tok percent botBalance) = tok"
| "pendingToken (FullSellPending tok) = tok"

definition tradeStep ::
  "environment \<Rightarrow> string \<Rightarrow> balance_map \<Rightarrow> balance_map
     \<Rightarrow> TrackerState \<times> pending list \<Rightarrow> token \<Rightarrow> TrackerState \<times> pending list" where
  "tradeStep env walletAddress oldBalances newBalances sp tok =
     (let st = fst sp; promises = snd sp;
          newBalance = get_or0 newBalances tok;
          oldBalance = get_or0 oldBalances tok
      in case tradeBranch st oldBalance newBalance tok of
           Some NEW_POSITION \<Rightarrow>
             (st\<lparr>tradeCount := tradeCount st + 1,
                 calls := calls st
                   @ [Swap (ExecuteSwapBuy solMint tok (TRADE_AMOUNT_LAMPORTS env))]\<rparr>,
              promises @ [BuyPending walletAddress tok])
         | Some INCREASE \<Rightarrow>
             (let accumulatedBalance =
                    get_or0 (previousBalances st) tok + (newBalance - oldBalance)
              in (st\<lparr>previousBalances :=
                        AList.update tok accumulatedBalance (previousBalances st),
                      calls := calls st
                        @ [SendWalletNotification ''INCREASE ALERT'' walletAddress tok]\<rparr>,
                  promises))
         | Some PARTIAL_DECREASE \<Rightarrow>
             (let botBalance = get_or0 (botBalances st) tok
              in if botBalance > 0
                 then (st\<lparr>tradeCount := tradeCount st + 1,
                           calls := calls st
                             @ [Swap (ExecuteSwapSell tok solMint
                                        (decreasePercent oldBalance newBalance))]\<rparr>,
                       promises @ [PartialSellPending walletAddress tok
                                     (decreasePercent oldBalance newBalance) botBalance])
                 else (st, promises))
         | _ \<Rightarrow> (st, promises))"

definition sellStep ::
  "environment \<Rightarrow> balance_map \<Rightarrow> TrackerState \<times> pending list \<Rightarrow> token
     \<Rightarrow> TrackerState \<times> pending list" where
  "sellStep env newBalances sp tok =
     (let st = fst sp; promises = snd sp
      in if fullSellBranch st newBalances tok
         then (st\<lparr>tradeCount := tradeCount st + 1,
                   calls := calls st @ [Swap (ExecuteSwapSell tok solMint 100)]\<rparr>,
               promises @ [FullSellPending tok])
         else (st, promises))"

fun settle :: "environment \<Rightarrow> TrackerState \<Rightarrow> pending \<Rightarrow> TrackerState" where
  "settle env st (BuyPending walletAddress tok) =
     (let outcome = executor env (ExecuteSwapBuy solMint tok (TRADE_AMOUNT_LAMPORTS env));
          result = fst outcome; latency = snd outcome
      in if success result \<and> outAmount result \<noteq> 0
         then st\<lparr>botBalances := AList.update tok (outAmount result) (botBalances st),
                 calls := calls st
                   @ [SendBotNotification ''BUY'' (botWallet env) tok,
                      SendWalletNotification ''BUY'' walletAddress tok],
                 metrics := updatePerformanceMetrics (tradeCount st) latency
                              (success result) (metrics st)\<rparr>
         else st)"
| "settle env st (PartialSellPending walletAddress tok percent botBalance) =
     (let outcome = executor env (ExecuteSwapSell tok solMint percent);
          result = fst outcome; latency = snd outcome;
          st' = (if success result
                 then st\<lparr>botBalances :=
                           AList.update tok (botBalance - botBalance * (percent / 100))
                             (botBalances st),
                         calls := calls st
                           @ [SendBotNotification ''DECREASE ALERT'' (botWallet env) tok],
                         metrics := updatePerformanceMetrics (tradeCount st) latency
                                      (success result) (metrics st)\<rparr>
                 else st\<lparr>metrics := updatePerformanceMetrics (tradeCount st) latency
                                      False (metrics st)\<rparr>)
      in st'\<lparr>calls := calls st'
                @ [SendWalletNotification ''DECREASE ALERT'' walletAddress tok]\<rparr>)"
| "settle env st (FullSellPending tok) =
     (let outcome = executor env (ExecuteSwapSell tok solMint 100);
          result = fst outcome; latency = snd outcome
      in if success result
         then st\<lparr>botBalances := AList.update tok 0 (botBalances st),
                 previousBalances := AList.delete tok (previousBalances st),
                 calls := calls st
                   @ [SendWalletNotification ''SELL'' (TRACKED_WALLET env) tok,
                      SendBotNotification ''SELL'' (botWallet env) tok]\<rparr>
         else st\<lparr>metrics := updatePerformanceMetrics (tradeCount st) latency
                              False (metrics st)\<rparr>)"

text \<open>
  The pass, as the program runs it. Its only caller is the log handler of
  \<^verbatim>\<open>startTracker\<close> (lines 449-451):
  \<^verbatim>\<open>compareBalances(TRACKED_WALLET!, previousBalances, newBalances); previousBalances = newBalances;\<close>
  The call is not awaited. \<open>dispatchPass\<close> is everything that runs before the call
  returns to the handler, that is before the first continuation. Two map objects are
  shared between the handler and the pass:

  \<^item> the old map is the object that \<^verbatim>\<open>previousBalances\<close> names during the dispatch, so
    the \<^verbatim>\<open>previousBalances.set\<close> of the increase branch also writes to the old map. The
    dispatch cannot observe that: \<^verbatim>\<open>oldTokens\<close> is copied at entry and the old balance of
    a token is read before the write to its key. The old map is therefore a value here;

  \<^item> the handler then rebinds \<^verbatim>\<open>previousBalances\<close> to the new map, before any
    continuation runs. From then on the variable and the parameter \<^verbatim>\<open>newBalances\<close> name
    one object: the \<^verbatim>\<open>previousBalances.delete(token)\<close> of a successful full sell
    (line 327) removes the token from the new snapshot itself, and line 364,
    \<^verbatim>\<open>previousBalances = new Map(newBalances)\<close>, copies the snapshot as the
    continuations have left it. \<open>finishPass\<close> follows these three steps; the field
    \<open>previousBalances\<close> of the state holds the contents of that one object while the
    continuations run.

  The order in which the awaited swaps complete is decided by the network.
  \<open>compareBalancesIn\<close> runs the continuations in a given list \<open>completed\<close>, and
  \<open>completionOrder\<close> says that the list is a rearrangement of the pending ones;
  \<open>compareBalances\<close> takes them in the order of
  \<^verbatim>\<open>Promise.all([...tradePromises, ...sellPromises])\<close>. A continuation is taken as one
  step although it awaits the notifier between its writes: each of its writes is a read
  and a write of one variable with no \<^verbatim>\<open>await\<close> in between.
\<close>

definition dispatchPass ::
  "environment \<Rightarrow> TrackerState \<Rightarrow> string \<Rightarrow> balance_map \<Rightarrow> balance_map
     \<Rightarrow> TrackerState \<times> pending list" where
  "dispatchPass env st walletAddress oldBalances newBalances =
     (let st0 = st\<lparr>apiCallCounter := apiCallCounter st + 1\<rparr>;
          oldTokens = keys oldBalances;
          newTokens = keys newBalances;
          afterTrades =
            foldl (tradeStep env walletAddress oldBalances newBalances) (st0, []) newTokens
      in foldl (sellStep env newBalances) afterTrades oldTokens)"

definition finishPass ::
  "environment \<Rightarrow> balance_map \<Rightarrow> TrackerState \<Rightarrow> pending list \<Rightarrow> TrackerState" where
  "finishPass env newBalances st completed =
     (let rebound = st\<lparr>previousBalances := newBalances\<rparr>;
          settled = foldl (settle env) rebound completed
      in settled\<lparr>previousBalances := previousBalances settled\<rparr>)"

definition compareBalances ::
  "environment \<Rightarrow> TrackerState \<Rightarrow> string \<Rightarrow> balance_map \<Rightarrow> balance_map \<Rightarrow> TrackerState" where
  "compareBalances env st walletAddress oldBalances newBalances =
     (let dispatched = dispatchPass env st walletAddress oldBalances newBalances
      in finishPass env newBalances (fst dispatched) (snd dispatched))"

definition compareBalancesIn ::
  "pending list \<Rightarrow> environment \<Rightarrow> TrackerState \<Rightarrow> string \<Rightarrow> balance_map \<Rightarrow> balance_map
     \<Rightarrow> TrackerState" where
  "compareBalancesIn completed env st walletAddress oldBalances newBalances =
     finishPass env newBalances
       (fst (dispatchPass env st walletAddress oldBalances newBalances)) completed"

definition completionOrder ::
  "environment \<Rightarrow> TrackerState \<Rightarrow> string \<Rightarrow> balance_map \<Rightarrow> balance_map \<Rightarrow> pending list
     \<Rightarrow> bool" where
  "completionOrder env st walletAddress oldBalances newBalances completed =
     (mset completed = mset (snd (dispatchPass env st walletAddress oldBalances newBalances)))"

definition passCallsIn ::
  "pending list \<Rightarrow> environment \<Rightarrow> TrackerState \<Rightarrow> string \<Rightarrow> balance_map \<Rightarrow> balance_map
     \<Rightarrow> call list" where
  "passCallsIn completed env st walletAddress oldBalances newBalances =
     drop (length (calls st))
       (calls (compareBalancesIn completed env st walletAddress oldBalances newBalances))"

text \<open>The calls a pass adds to the log, and the kinds whose branch the pass takes for
  a token: the callback of \<open>tradePromises\<close> runs for the keys of the new map, that of
  \<open>sellPromises\<close> for the keys of the old map.\<close>

definition passCalls ::
  "environment \<Rightarrow> TrackerState \<Rightarrow> string \<Rightarrow> balance_map \<Rightarrow> balance_map \<Rightarrow> call list" where
  "passCalls env st walletAddress oldBalances newBalances =
     drop (length (calls st)) (calls (compareBalances env st walletAddress oldBalances newBalances))"

fun taken :: "kind option \<Rightarrow> kind list" where
  "taken None = []"
| "taken (Some k) = [k]"

definition kinds :: "TrackerState \<Rightarrow> balance_map \<Rightarrow> balance_map \<Rightarrow> token \<Rightarrow> kind list" where
  "kinds st oldBalances newBalances tok =
     (if tok \<in> set (keys newBalances)
      then taken (tradeBranch st (get_or0 oldBalances tok) (get_or0 newBalances tok) tok)
      else [])
     @ (if tok \<in> set (keys oldBalances) \<and> fullSellBranch st newBalances tok
        then [FULL_EXIT] else [])"

definition initialState :: "balance_map \<Rightarrow> balance_map \<Rightarrow> TrackerState" where
  \<comment> \<open>the state \<^verbatim>\<open>startTracker\<close> leaves once both start-up fetches have resolved\<close>
  "initialState trackedBalances botBalancesMap =
     \<lparr>previousBalances = trackedBalances, botBalances = botBalancesMap, apiCallCounter = 0, tradeCount = 0,
      metrics = resetMetrics, calls = []\<rparr>"

section \<open>The older tracker\<close>

text \<open>
  \<^verbatim>\<open>compareBalances\<close> of \<^verbatim>\<open>src/src/tracker.ts\<close> (lines 70-127), the pass that
  \<^verbatim>\<open>src/src/index.ts\<close> starts through \<^verbatim>\<open>trackWalletBalances\<close>. It walks the union of
  the keys with a sequential \<^verbatim>\<open>for\<close> loop and awaits each swap in turn. Its maps come
  from \<open>fetchCurrentTokenBalances\<close>, so a value may be NaN (\<open>None\<close>), and every
  comparison with NaN is false. Its trader (the second module of
  \<^verbatim>\<open>src/src/trader.ts\<close>) resolves to a boolean, \<open>trader\<close> here, and the Telegram
  message is sent only when that boolean is true. \<^verbatim>\<open>waitForBalanceUpdate\<close>, awaited
  after a successful buy, only polls the balances and logs, and is left out.
\<close>

record LegacyState =
  isFirstRun :: bool
  issued :: "call list"

definition nullish0 :: "(token \<times> real option) list \<Rightarrow> token \<Rightarrow> real option" where
  \<comment> \<open>\<^verbatim>\<open>m.get(token) ?? 0\<close>\<close>
  "nullish0 m tok = (case map_of m tok of None \<Rightarrow> Some 0 | Some v \<Rightarrow> v)"

definition js_gt :: "real option \<Rightarrow> real option \<Rightarrow> bool" where
  "js_gt a b = (case a of None \<Rightarrow> False
                | Some x \<Rightarrow> (case b of None \<Rightarrow> False | Some y \<Rightarrow> x > y))"

definition js_eq :: "real option \<Rightarrow> real option \<Rightarrow> bool" where
  "js_eq a b = (case a of None \<Rightarrow> False
                | Some x \<Rightarrow> (case b of None \<Rightarrow> False | Some y \<Rightarrow> x = y))"

definition legacyStep ::
  "environment \<Rightarrow> (swap_call \<Rightarrow> bool) \<Rightarrow> string \<Rightarrow> (token \<times> real option) list
     \<Rightarrow> (token \<times> real option) list \<Rightarrow> LegacyState \<Rightarrow> token \<Rightarrow> LegacyState" where
  "legacyStep env trader walletAddress prevBalances latestBalances st tok =
     (let oldBalance = nullish0 prevBalances tok;
          newBalance = nullish0 latestBalances tok
      in if \<not> isFirstRun st then
           (if js_eq oldBalance (Some 0) \<and> js_gt newBalance (Some 0)
            then (let buySuccess =
                        trader (ExecuteSwapBuy solMint tok (TRADE_AMOUNT_LAMPORTS env))
                  in st\<lparr>issued := issued st
                          @ [Swap (ExecuteSwapBuy solMint tok (TRADE_AMOUNT_LAMPORTS env))]
                          @ (if buySuccess
                             then [SendTelegramMessage ''BUY'' walletAddress tok] else [])\<rparr>)
            else if js_gt newBalance oldBalance
            then (let buyAmount = TRADE_AMOUNT_LAMPORTS env * (25 / 100);
                      increaseSuccess = trader (ExecuteSwapBuy solMint tok buyAmount)
                  in st\<lparr>issued := issued st
                          @ [Swap (ExecuteSwapBuy solMint tok buyAmount)]
                          @ (if increaseSuccess
                             then [SendTelegramMessage ''INCREASE'' walletAddress tok]
                             else [])\<rparr>)
            else if js_eq newBalance (Some 0) \<and> js_gt oldBalance (Some 0)
            then (let sellSuccess = trader (ExecuteSwapSell tok solMint 100)
                  in st\<lparr>issued := issued st
                          @ [Swap (ExecuteSwapSell tok solMint 100)]
                          @ (if sellSuccess
                             then [SendTelegramMessage ''SELL'' walletAddress tok] else [])\<rparr>)
            else st)
         else st)"


section \<open>Concrete inputs\<close>

text \<open>A chain client, two executors and an environment on which the functions above
  are evaluated in the closed theorems below.\<close>

definition sampleClient :: chain_client where
  "sampleClient walletAddress =
     (if walletAddress = ''W''
      then Inr [Some \<lparr>mint = ''A'', uiAmount = Some 0\<rparr>,
                Some \<lparr>mint = ''B'', uiAmount = Some 5\<rparr>]
      else if walletAddress = ''M''
      then Inr [Some \<lparr>mint = ''B'', uiAmount = Some 5\<rparr>, None]
      else Inl NetworkError)"

definition succeeding :: "swap_call \<Rightarrow> SwapResult \<times> int" where
  "succeeding c =
     (\<lparr>success = True, outAmount = 600952259, signature = Some ''sig'',
       dex = Some ''Raydium''\<rparr>, 120)"

definition failing :: "swap_call \<Rightarrow> SwapResult \<times> int" where
  "failing c = (\<lparr>success = False, outAmount = 0, signature = None, dex = None\<rparr>, 95)"


definition envWith :: "(swap_call \<Rightarrow> SwapResult \<times> int) \<Rightarrow> environment" where
  "envWith ex =
     \<lparr>TRADE_AMOUNT_LAMPORTS = 1000000, TRACKED_WALLET = ''W'', botWallet = ''B'',
      executor = ex\<rparr>"

section \<open>Snapshot fetch: failures and zero balances\<close>

lemma collectPositive_throws:
  "None \<in> set accounts \<Longrightarrow> collectPositive accounts tb = Inl TypeError"
  by (induction accounts tb rule: collectPositive.induct) auto

lemma collectAll_throws:
  "None \<in> set accounts \<Longrightarrow> collectAll accounts tb = Inl TypeError"
  by (induction accounts tb rule: collectAll.induct) auto

text \<open>
  C9. Whenever the fetch fails -- the client call returns an error, or reading an account
  of the response throws -- the poll returns the empty map to its caller; no error value
  leaves the function. This holds for \<open>getWalletTokenBalances\<close> of the current tracker
  and for \<open>fetchCurrentTokenBalances\<close> of the older one.
\<close>

theorem fetch_failure_gives_empty_map:
  "fetchThrows client w \<Longrightarrow>
     getWalletTokenBalances client w = [] \<and> fetchCurrentTokenBalances client w = []"
  by (auto simp: fetchThrows_def getWalletTokenBalances_def fetchCurrentTokenBalances_def
        collectPositive_throws collectAll_throws split: sum.splits)

theorem fetch_failure_gives_empty_map_witness:
  "fetchThrows sampleClient ''X'' \<and> fetchThrows sampleClient ''M''
   \<and> getWalletTokenBalances sampleClient ''X'' = []
   \<and> fetchCurrentTokenBalances sampleClient ''X'' = []
   \<and> getWalletTokenBalances sampleClient ''M'' = []
   \<and> fetchCurrentTokenBalances sampleClient ''M'' = []"
proof -
  have a: "fetchThrows sampleClient ''X''" by (simp add: fetchThrows_def sampleClient_def)
  have b: "fetchThrows sampleClient ''M''" by (simp add: fetchThrows_def sampleClient_def)
  show ?thesis
    using a b fetch_failure_gives_empty_map[OF a] fetch_failure_gives_empty_map[OF b] by simp
qed

lemma set_update_subset: "set (AList.update k v al) \<subseteq> insert (k, v) (set al)"
  by (induction al) auto

lemma collectPositive_positive:
  "collectPositive accounts tb = Inr m \<Longrightarrow> \<forall>p \<in> set tb. snd p > 0
     \<Longrightarrow> \<forall>p \<in> set m. snd p > 0"
proof (induction accounts tb rule: collectPositive.induct)
  case (3 account rest tokenBalances)
  let ?tb = "case uiAmount account of None \<Rightarrow> tokenBalances
             | Some balance \<Rightarrow> if balance > 0
                 then AList.update (mint account) balance tokenBalances else tokenBalances"
  have "collectPositive rest ?tb = Inr m"
    using "3.prems"(1) by simp
  moreover have "\<forall>p \<in> set ?tb. snd p > 0"
  proof (cases "uiAmount account")
    case None
    with "3.prems"(2) show ?thesis by simp
  next
    case (Some b)
    with "3.prems"(2) set_update_subset[of "mint account" b tokenBalances]
    show ?thesis by auto
  qed
  ultimately show ?case by (rule "3.IH")
qed auto

lemma collectPositive_absent:
  "collectPositive accounts tb = Inr m \<Longrightarrow> map_of tb tok = None \<Longrightarrow>
   \<forall>a. Some a \<in> set accounts \<and> mint a = tok \<longrightarrow> uiAmount a = Some 0 \<Longrightarrow>
   map_of m tok = None"
proof (induction accounts tb rule: collectPositive.induct)
  case (3 account rest tokenBalances)
  let ?tb = "case uiAmount account of None \<Rightarrow> tokenBalances
             | Some balance \<Rightarrow> if balance > 0
                 then AList.update (mint account) balance tokenBalances else tokenBalances"
  have "collectPositive rest ?tb = Inr m"
    using "3.prems"(1) by simp
  moreover have "map_of ?tb tok = None"
  proof (cases "uiAmount account")
    case None
    with "3.prems"(2) show ?thesis by simp
  next
    case (Some b)
    show ?thesis
    proof (cases "b > 0")
      case True
      with Some "3.prems"(3) have "mint account \<noteq> tok" by auto
      with Some True "3.prems"(2) show ?thesis by (simp add: update_conv')
    next
      case False
      with Some "3.prems"(2) show ?thesis by simp
    qed
  qed
  moreover have "\<forall>a. Some a \<in> set rest \<and> mint a = tok \<longrightarrow> uiAmount a = Some 0"
    using "3.prems"(3) by simp
  ultimately show ?case by (rule "3.IH")
qed auto

text \<open>
  C10. Every value of a map returned by \<open>getWalletTokenBalances\<close> is strictly positive,
  and a token all of whose accounts report the balance 0 is not a key of the map: it
  reads as 0 through \<^verbatim>\<open>get(token) || 0\<close>, exactly as a token the wallet never held.
\<close>

theorem snapshot_values_positive:
  "(\<forall>p \<in> set (getWalletTokenBalances client w). snd p > 0) \<and>
   (client w = Inr accounts \<and>
      (\<forall>a. Some a \<in> set accounts \<and> mint a = tok \<longrightarrow> uiAmount a = Some 0)
    \<longrightarrow> \<not> has (getWalletTokenBalances client w) tok
        \<and> get_or0 (getWalletTokenBalances client w) tok = 0)"
proof (intro conjI impI)
  show "\<forall>p \<in> set (getWalletTokenBalances client w). snd p > 0"
  proof (cases "client w")
    case (Inl err)
    then show ?thesis by (simp add: getWalletTokenBalances_def)
  next
    case (Inr accs)
    show ?thesis
    proof (cases "collectPositive accs []")
      case (Inl err)
      with Inr show ?thesis by (simp add: getWalletTokenBalances_def)
    next
      case (Inr m)
      then have "\<forall>p \<in> set m. snd p > 0"
        by (rule collectPositive_positive) simp
      with Inr \<open>client w = Inr accs\<close> show ?thesis
        by (simp add: getWalletTokenBalances_def)
    qed
  qed
next
  assume h: "client w = Inr accounts \<and>
      (\<forall>a. Some a \<in> set accounts \<and> mint a = tok \<longrightarrow> uiAmount a = Some 0)"
  then have "map_of (getWalletTokenBalances client w) tok = None"
    using collectPositive_absent[of accounts "[]" _ tok]
    by (cases "collectPositive accounts []") (simp_all add: getWalletTokenBalances_def)
  then show "\<not> has (getWalletTokenBalances client w) tok"
    and "get_or0 (getWalletTokenBalances client w) tok = 0"
    by (simp_all add: has_def get_or0_def)
qed

theorem snapshot_values_positive_witness:
  "getWalletTokenBalances sampleClient ''W'' = [(''B'', 5)]
   \<and> snd (hd (getWalletTokenBalances sampleClient ''W'')) > 0
   \<and> \<not> has (getWalletTokenBalances sampleClient ''W'') ''A''
   \<and> get_or0 (getWalletTokenBalances sampleClient ''W'') ''A'' = 0"
proof -
  let ?accounts = "[Some \<lparr>mint = ''A'', uiAmount = Some 0\<rparr>,
                    Some \<lparr>mint = ''B'', uiAmount = Some 5\<rparr>]"
  have fetched: "sampleClient ''W'' = Inr ?accounts"
    by (simp add: sampleClient_def)
  have zero: "\<forall>a. Some a \<in> set ?accounts \<and> mint a = ''A'' \<longrightarrow> uiAmount a = Some 0"
    by auto
  have result: "getWalletTokenBalances sampleClient ''W'' = [(''B'', 5)]"
    by (simp add: getWalletTokenBalances_def fetched)
  have member: "hd (getWalletTokenBalances sampleClient ''W'')
                  \<in> set (getWalletTokenBalances sampleClient ''W'')"
    by (simp add: result)
  note inst = snapshot_values_positive[of sampleClient "''W''" ?accounts "''A''"]
  have "snd (hd (getWalletTokenBalances sampleClient ''W'')) > 0"
    using inst member by blast
  moreover have "\<not> has (getWalletTokenBalances sampleClient ''W'') ''A''
      \<and> get_or0 (getWalletTokenBalances sampleClient ''W'') ''A'' = 0"
    using inst fetched zero by blast
  ultimately show ?thesis
    using result by blast
qed

section \<open>Classification by the pass\<close>

lemma has_keys: "has m tok \<longleftrightarrow> tok \<in> set (keys m)"
  by (simp add: has_def keys_def map_of_eq_None_iff)


text \<open>
  C1. The claim: for every token and balance pair at most one kind applies, and for
  \<open>0 < newBalance \<le> 0.001 < oldBalance\<close> with a positive bot position the pass does not
  take both sell branches. The code at such a pair, old balance 1, new balance 0.0005 and
  a bot holding of 10: the callback over the new tokens takes the partial-sell branch
  (its guard is \<^verbatim>\<open>newBalance > 0\<close>) and the callback over the old tokens takes the
  full-sell branch (its guard is \<^verbatim>\<open>newBalance <= 0.001\<close>), so the pass hands the
  executor a 99.95% sell and a 100% sell of the same token, both before any result is
  seen.
\<close>

theorem dust_band_double_sell:
  "kinds (initialState [(''T'', 1)] [(''T'', 10)]) [(''T'', 1)] [(''T'', 1 / 2000)] ''T''
     = [PARTIAL_DECREASE, FULL_EXIT]
   \<and> calls (fst (dispatchPass (envWith succeeding) (initialState [(''T'', 1)] [(''T'', 10)])
                   ''W'' [(''T'', 1)] [(''T'', 1 / 2000)]))
     = [Swap (ExecuteSwapSell ''T'' solMint (1999 / 20)),
        Swap (ExecuteSwapSell ''T'' solMint 100)]
   \<and> snd (dispatchPass (envWith succeeding) (initialState [(''T'', 1)] [(''T'', 10)])
             ''W'' [(''T'', 1)] [(''T'', 1 / 2000)])
     = [PartialSellPending ''W'' ''T'' (1999 / 20) 10, FullSellPending ''T'']"
  by (simp add: dispatchPass_def keys_def tradeStep_def sellStep_def tradeBranch_def
        fullSellBranch_def get_or0_def has_def initialState_def envWith_def
        decreasePercent_def kinds_def)

text \<open>The same overlap for every state and every pair of maps: inside the dust band,
  with a positive holding, both kinds apply.\<close>

lemma dust_band_overlap:
  assumes "tok \<in> set (keys old)" "tok \<in> set (keys new)"
    and "0 < get_or0 new tok" "get_or0 new tok \<le> 1 / 1000" "get_or0 new tok < get_or0 old tok"
    and "0 < get_or0 (botBalances st) tok"
  shows "kinds st old new tok = [PARTIAL_DECREASE, FULL_EXIT]"
  using assms by (simp add: kinds_def tradeBranch_def fullSellBranch_def)

text \<open>An increase that stays inside the dust band overlaps with the full sell in the
  same way.\<close>

lemma dust_band_increase_overlap:
  assumes "tok \<in> set (keys old)" "tok \<in> set (keys new)"
    and "get_or0 old tok < get_or0 new tok" "get_or0 new tok \<le> 1 / 1000"
    and "0 < get_or0 (botBalances st) tok"
  shows "kinds st old new tok = [INCREASE, FULL_EXIT]"
proof -
  from assms(5) have "has (botBalances st) tok"
    by (auto simp: has_def get_or0_def split: option.splits)
  with assms show ?thesis
    by (simp add: kinds_def tradeBranch_def fullSellBranch_def)
qed

text \<open>
  C2. The claim: the fixed-size buy is triggered exactly when the old balance is 0, the
  new balance is positive and the bot's held amount is zero, so a token bought again by
  the tracked wallet after a full exit is bought again. The code: a successful full sell
  executes \<^verbatim>\<open>botBalances.set(token, 0)\<close>, which keeps the key, and the buy guard tests
  \<^verbatim>\<open>!botBalances.has(token)\<close>. After the full exit of T (first pass) the reappearance
  of T with old balance 0 and new balance 5 (second pass) is classified as an increase
  and only the alert is sent.
\<close>

theorem no_rebuy_after_full_exit:
  "botBalances (compareBalances (envWith succeeding) (initialState [(''T'', 30)] [(''T'', 10)])
       ''W'' [(''T'', 30)] []) = [(''T'', 0)]
   \<and> previousBalances (compareBalances (envWith succeeding)
       (initialState [(''T'', 30)] [(''T'', 10)]) ''W'' [(''T'', 30)] []) = []
   \<and> kinds (compareBalances (envWith succeeding) (initialState [(''T'', 30)] [(''T'', 10)])
       ''W'' [(''T'', 30)] []) [] [(''T'', 5)] ''T'' = [INCREASE]
   \<and> passCalls (envWith succeeding)
        (compareBalances (envWith succeeding) (initialState [(''T'', 30)] [(''T'', 10)])
           ''W'' [(''T'', 30)] [])
        ''W'' [] [(''T'', 5)]
     = [SendWalletNotification ''INCREASE ALERT'' ''W'' ''T'']"
  by (simp add: compareBalances_def dispatchPass_def finishPass_def keys_def tradeStep_def
        sellStep_def tradeBranch_def fullSellBranch_def get_or0_def has_def initialState_def
        envWith_def succeeding_def decreasePercent_def passCalls_def kinds_def
        updatePerformanceMetrics_def resetMetrics_def)

text \<open>The guard of the buy branch, for every state: the buy is taken exactly when the
  balance grew and the token is a key of neither \<open>botBalances\<close> nor
  \<open>previousBalances\<close>.\<close>

lemma new_position_guard:
  "tradeBranch st oldBal newBal tok = Some NEW_POSITION \<longleftrightarrow>
     oldBal < newBal \<and> \<not> has (botBalances st) tok \<and> \<not> has (previousBalances st) tok"
  by (simp add: tradeBranch_def)

text \<open>The guard of the partial-sell branch, for every state.\<close>

lemma partial_decrease_guard:
  "tradeBranch st oldBal newBal tok = Some PARTIAL_DECREASE \<longleftrightarrow> newBal < oldBal \<and> 0 < newBal"
  by (auto simp: tradeBranch_def)

text \<open>
  C3. The claim: a partial decrease is classified exactly when the new balance is strictly
  below the old one and strictly above the dust threshold 0.001. The code at old balance
  1 and new balance 0.0005: the partial-sell branch is guarded by \<^verbatim>\<open>newBalance > 0\<close>
  (line 230), not by the threshold that the full sell uses (line 313), so the pair is
  classified as a partial decrease although 0.0005 is not above 0.001.
\<close>

theorem dust_band_partial_decrease:
  "tradeBranch (initialState [(''T'', 1)] [(''T'', 10)])
      (get_or0 [(''T'', 1)] ''T'') (get_or0 [(''T'', 1 / 2000)] ''T'') ''T''
     = Some PARTIAL_DECREASE
   \<and> \<not> get_or0 [(''T'', 1 / 2000)] ''T'' > 1 / 1000"
  by (simp add: tradeBranch_def get_or0_def has_def initialState_def)

section \<open>Outcomes: ledger and metrics\<close>

text \<open>
  C5. When the 100% sell of T succeeds, the continuation leaves 0 in the ledger entry of
  T; when a partial sell at percent P succeeds, it leaves \<open>H - H * P / 100\<close>, where H
  is the holding read when the sell was dispatched (the third conjunct: the suspended
  callback carries the ledger entry of T and the percent of the decrease). Over the
  reals, so without the rounding of the doubles.
\<close>

theorem successful_sell_updates_ledger:
  "(success (fst (executor env (ExecuteSwapSell tok solMint 100))) \<longrightarrow>
      map_of (botBalances (settle env st (FullSellPending tok))) tok = Some 0)
   \<and> (success (fst (executor env (ExecuteSwapSell tok solMint P))) \<longrightarrow>
      map_of (botBalances (settle env st (PartialSellPending w tok P H))) tok
        = Some (H - H * P / 100))
   \<and> (tradeBranch st (get_or0 old tok) (get_or0 new tok) tok = Some PARTIAL_DECREASE
        \<and> 0 < get_or0 (botBalances st) tok \<longrightarrow>
      snd (tradeStep env w old new (st, ps) tok)
        = ps @ [PartialSellPending w tok
                  (decreasePercent (get_or0 old tok) (get_or0 new tok))
                  (get_or0 (botBalances st) tok)])"
  by (simp add: Let_def update_conv' tradeStep_def)


theorem successful_sell_updates_ledger_witness:
  "success (fst (executor (envWith succeeding) (ExecuteSwapSell ''T'' solMint 100)))
   \<and> map_of (botBalances (settle (envWith succeeding)
                (initialState [(''T'', 50)] [(''T'', 10)]) (FullSellPending ''T''))) ''T''
       = Some 0
   \<and> success (fst (executor (envWith succeeding) (ExecuteSwapSell ''T'' solMint 40)))
   \<and> map_of (botBalances (settle (envWith succeeding)
                (initialState [(''T'', 50)] [(''T'', 10)])
                (PartialSellPending ''W'' ''T'' 40 10))) ''T''
       = Some 6
   \<and> snd (tradeStep (envWith succeeding) ''W'' [(''T'', 50)] [(''T'', 30)]
             (initialState [(''T'', 50)] [(''T'', 10)], []) ''T'')
       = [PartialSellPending ''W'' ''T'' 40 10]"
proof -
  let ?st = "initialState [(''T'', 50)] [(''T'', 10)]"
  note inst = successful_sell_updates_ledger[of "envWith succeeding" "''T''" ?st 40 "''W''" 10
      "[(''T'', 50)]" "[(''T'', 30)]" "[]"]
  have ok100: "success (fst (executor (envWith succeeding) (ExecuteSwapSell ''T'' solMint 100)))"
    and ok40: "success (fst (executor (envWith succeeding) (ExecuteSwapSell ''T'' solMint 40)))"
    by (simp_all add: envWith_def succeeding_def)
  have branch: "tradeBranch ?st (get_or0 [(''T'', 50)] ''T'') (get_or0 [(''T'', 30)] ''T'') ''T''
      = Some PARTIAL_DECREASE \<and> 0 < get_or0 (botBalances ?st) ''T''"
    by (simp add: tradeBranch_def get_or0_def initialState_def)
  have vals: "decreasePercent (get_or0 [(''T'', 50)] ''T'') (get_or0 [(''T'', 30)] ''T'') = 40"
    "get_or0 (botBalances ?st) ''T'' = 10" "(10::real) - 10 * 40 / 100 = 6"
    by (simp_all add: decreasePercent_def get_or0_def initialState_def)
  from inst ok100 have full: "map_of (botBalances (settle (envWith succeeding) ?st
      (FullSellPending ''T''))) ''T'' = Some 0"
    by blast
  from inst ok40 have "map_of (botBalances (settle (envWith succeeding) ?st
      (PartialSellPending ''W'' ''T'' 40 10))) ''T'' = Some (10 - 10 * 40 / 100)"
    by blast
  then have part: "map_of (botBalances (settle (envWith succeeding) ?st
      (PartialSellPending ''W'' ''T'' 40 10))) ''T'' = Some 6"
    using vals(3) by simp
  from inst branch have "snd (tradeStep (envWith succeeding) ''W'' [(''T'', 50)] [(''T'', 30)]
             (?st, []) ''T'')
       = [] @ [PartialSellPending ''W'' ''T''
                 (decreasePercent (get_or0 [(''T'', 50)] ''T'') (get_or0 [(''T'', 30)] ''T''))
                 (get_or0 (botBalances ?st) ''T'')]"
    by blast
  then have pend: "snd (tradeStep (envWith succeeding) ''W'' [(''T'', 50)] [(''T'', 30)]
             (?st, []) ''T'') = [PartialSellPending ''W'' ''T'' 40 10]"
    using vals(1,2) by simp
  show ?thesis
    using ok100 full ok40 part pend by blast
qed

text \<open>The same at the end of a whole pass over maps with distinct keys, when the sell is
  the only swap of the pass for that token: the continuations of the other tokens leave
  the entry alone.\<close>

lemma settle_other_token:
  "pendingToken p \<noteq> tok \<Longrightarrow>
     map_of (botBalances (settle env st p)) tok = map_of (botBalances st) tok"
  by (cases p) (simp_all add: Let_def update_conv')

lemma foldl_settle_other_tokens:
  "\<forall>p \<in> set ps. pendingToken p \<noteq> tok \<Longrightarrow>
     map_of (botBalances (foldl (settle env) st ps)) tok = map_of (botBalances st) tok"
  by (induction ps arbitrary: st) (simp_all add: settle_other_token)

lemma tradeStep_botBalances:
  "botBalances (fst (tradeStep env w old new sp t)) = botBalances (fst sp)"
  by (simp add: tradeStep_def Let_def split: option.split kind.split)

lemma foldl_tradeStep_botBalances:
  "botBalances (fst (foldl (tradeStep env w old new) sp ts)) = botBalances (fst sp)"
  by (induction ts arbitrary: sp) (simp_all add: tradeStep_botBalances)

lemma sellStep_botBalances:
  "botBalances (fst (sellStep env new sp t)) = botBalances (fst sp)"
  by (simp add: sellStep_def Let_def)

lemma foldl_sellStep_botBalances:
  "botBalances (fst (foldl (sellStep env new) sp ts)) = botBalances (fst sp)"
  by (induction ts arbitrary: sp) (simp_all add: sellStep_botBalances)

lemma tradeStep_pending:
  "\<exists>xs. snd (tradeStep env w old new sp t) = snd sp @ xs \<and> (\<forall>p \<in> set xs. pendingToken p = t)"
  by (simp add: tradeStep_def Let_def split: option.split kind.split)

lemma foldl_tradeStep_pending:
  "tok \<notin> set ts \<Longrightarrow>
   \<exists>xs. snd (foldl (tradeStep env w old new) sp ts) = snd sp @ xs
        \<and> (\<forall>p \<in> set xs. pendingToken p \<noteq> tok)"
proof (induction ts arbitrary: sp)
  case Nil
  then show ?case by simp
next
  case (Cons t ts)
  obtain xs where xs: "snd (tradeStep env w old new sp t) = snd sp @ xs"
      "\<forall>p \<in> set xs. pendingToken p = t"
    using tradeStep_pending by blast
  from Cons.prems have "tok \<notin> set ts" and "t \<noteq> tok" by auto
  from Cons.IH[OF this(1), of "tradeStep env w old new sp t"]
  obtain ys where ys: "snd (foldl (tradeStep env w old new) (tradeStep env w old new sp t) ts)
        = snd (tradeStep env w old new sp t) @ ys"
      "\<forall>p \<in> set ys. pendingToken p \<noteq> tok"
    by blast
  have "snd (foldl (tradeStep env w old new) sp (t # ts)) = snd sp @ (xs @ ys)"
    using xs(1) ys(1) by simp
  moreover have "\<forall>p \<in> set (xs @ ys). pendingToken p \<noteq> tok"
    using xs(2) ys(2) \<open>t \<noteq> tok\<close> by auto
  ultimately show ?case by blast
qed

lemma sellStep_pending:
  "\<exists>xs. snd (sellStep env new sp t) = snd sp @ xs
        \<and> (\<forall>p \<in> set xs. pendingToken p = t \<and> fullSellBranch (fst sp) new t)"
  by (simp add: sellStep_def Let_def)

lemma fullSellBranch_cong:
  "botBalances s = botBalances s' \<Longrightarrow> fullSellBranch s new t = fullSellBranch s' new t"
  by (simp add: fullSellBranch_def)

lemma foldl_sellStep_pending:
  "tok \<notin> set ts \<or> \<not> fullSellBranch (fst sp) new tok \<Longrightarrow>
   \<exists>xs. snd (foldl (sellStep env new) sp ts) = snd sp @ xs
        \<and> (\<forall>p \<in> set xs. pendingToken p \<noteq> tok)"
proof (induction ts arbitrary: sp)
  case Nil
  then show ?case by simp
next
  case (Cons t ts)
  let ?sp = "sellStep env new sp t"
  obtain xs where xs: "snd ?sp = snd sp @ xs"
      "\<forall>p \<in> set xs. pendingToken p = t \<and> fullSellBranch (fst sp) new t"
    using sellStep_pending by blast
  have same: "fullSellBranch (fst ?sp) new tok = fullSellBranch (fst sp) new tok"
    by (rule fullSellBranch_cong) (simp add: sellStep_botBalances)
  from Cons.prems same have "tok \<notin> set ts \<or> \<not> fullSellBranch (fst ?sp) new tok" by auto
  from Cons.IH[OF this]
  obtain ys where ys: "snd (foldl (sellStep env new) ?sp ts) = snd ?sp @ ys"
      "\<forall>p \<in> set ys. pendingToken p \<noteq> tok"
    by blast
  have "snd (foldl (sellStep env new) sp (t # ts)) = snd sp @ (xs @ ys)"
    using xs(1) ys(1) by simp
  moreover have "\<forall>p \<in> set (xs @ ys). pendingToken p \<noteq> tok"
    using xs(2) ys(2) Cons.prems by auto
  ultimately show ?case by blast
qed


lemma tradeStep_without_pending:
  assumes "has (botBalances (fst sp)) tok"
    and "\<not> (get_or0 new tok < get_or0 old tok \<and> 0 < get_or0 new tok)"
  shows "snd (tradeStep env w old new sp tok) = snd sp"
  using assms
  by (auto simp: tradeStep_def tradeBranch_def Let_def split: option.split kind.split)

lemma foldl_tradeStep_without_pending:
  assumes "has (botBalances (fst sp)) tok"
    and "\<not> (get_or0 new tok < get_or0 old tok \<and> 0 < get_or0 new tok)"
  shows "\<exists>xs. snd (foldl (tradeStep env w old new) sp ts) = snd sp @ xs
        \<and> (\<forall>p \<in> set xs. pendingToken p \<noteq> tok)"
  using assms(1)
proof (induction ts arbitrary: sp)
  case Nil
  then show ?case by simp
next
  case (Cons t ts)
  let ?sp = "tradeStep env w old new sp t"
  have "has (botBalances (fst ?sp)) tok"
    using Cons.prems by (simp add: tradeStep_botBalances)
  from Cons.IH[OF this]
  obtain ys where ys: "snd (foldl (tradeStep env w old new) ?sp ts) = snd ?sp @ ys"
      "\<forall>p \<in> set ys. pendingToken p \<noteq> tok"
    by blast
  obtain xs where xs: "snd ?sp = snd sp @ xs" "\<forall>p \<in> set xs. pendingToken p \<noteq> tok"
  proof (cases "t = tok")
    case True
    then have "snd ?sp = snd sp @ []"
      using tradeStep_without_pending[OF Cons.prems assms(2)] by simp
    then show ?thesis using that[of "[]"] by simp
  next
    case False
    then show ?thesis using tradeStep_pending[of env w old new sp t] that by metis
  qed
  have "snd (foldl (tradeStep env w old new) sp (t # ts)) = snd sp @ (xs @ ys)"
    using xs(1) ys(1) by simp
  moreover have "\<forall>p \<in> set (xs @ ys). pendingToken p \<noteq> tok"
    using xs(2) ys(2) by auto
  ultimately show ?case by blast
qed

lemma pass_partial_sell_ledger:
  assumes dist: "distinct (keys new)" and mem: "tok \<in> set (keys new)"
    and dec: "get_or0 new tok < get_or0 old tok" and above: "1 / 1000 < get_or0 new tok"
    and held: "0 < get_or0 (botBalances st) tok"
    and ok: "success (fst (executor env (ExecuteSwapSell tok solMint
               (decreasePercent (get_or0 old tok) (get_or0 new tok)))))"
  shows "map_of (botBalances (compareBalances env st w old new)) tok
           = Some (get_or0 (botBalances st) tok
                   - get_or0 (botBalances st) tok
                     * decreasePercent (get_or0 old tok) (get_or0 new tok) / 100)"
proof -
  let ?P = "decreasePercent (get_or0 old tok) (get_or0 new tok)"
  let ?H = "get_or0 (botBalances st) tok"
  let ?st0 = "st\<lparr>apiCallCounter := apiCallCounter st + 1\<rparr>"
  let ?trade = "tradeStep env w old new"
  from mem obtain ts1 ts2 where split: "keys new = ts1 @ tok # ts2"
    by (auto dest: split_list)
  with dist have notin: "tok \<notin> set ts1" "tok \<notin> set ts2" by auto
  let ?sp1 = "foldl ?trade (?st0, []) ts1"
  let ?sp2 = "?trade ?sp1 tok"
  let ?sp3 = "foldl ?trade ?sp2 ts2"
  let ?sp4 = "foldl (sellStep env new) ?sp3 (keys old)"
  obtain xs1 where xs1: "snd ?sp1 = xs1" "\<forall>p \<in> set xs1. pendingToken p \<noteq> tok"
    using foldl_tradeStep_pending[OF notin(1), where env = env and w = w and old = old
        and new = new and sp = "(?st0, [])"] by auto
  have bot1: "botBalances (fst ?sp1) = botBalances st"
    by (simp add: foldl_tradeStep_botBalances)
  have branch: "tradeBranch (fst ?sp1) (get_or0 old tok) (get_or0 new tok) tok
      = Some PARTIAL_DECREASE"
    using dec above by (simp add: tradeBranch_def)
  have sp2: "snd ?sp2 = xs1 @ [PartialSellPending w tok ?P ?H]"
    using branch held bot1 xs1(1) by (simp add: tradeStep_def Let_def)
  obtain xs3 where xs3: "snd ?sp3 = snd ?sp2 @ xs3" "\<forall>p \<in> set xs3. pendingToken p \<noteq> tok"
    using foldl_tradeStep_pending[OF notin(2), where env = env and w = w and old = old
        and new = new and sp = ?sp2] by auto
  have "has new tok" using mem by (simp add: has_keys)
  then have nofull: "tok \<notin> set (keys old) \<or> \<not> fullSellBranch (fst ?sp3) new tok"
    using above by (simp add: fullSellBranch_def)
  obtain xs4 where xs4: "snd ?sp4 = snd ?sp3 @ xs4" "\<forall>p \<in> set xs4. pendingToken p \<noteq> tok"
    using foldl_sellStep_pending[OF nofull, where env = env] by auto
  have disp: "dispatchPass env st w old new = ?sp4"
    by (simp add: dispatchPass_def Let_def split)
  have pend: "snd ?sp4 = xs1 @ PartialSellPending w tok ?P ?H # (xs3 @ xs4)"
    using sp2 xs3(1) xs4(1) by simp
  let ?s0 = "(fst ?sp4)\<lparr>previousBalances := new\<rparr>"
  let ?mid = "foldl (settle env) ?s0 xs1"
  have settled: "map_of (botBalances (settle env ?mid (PartialSellPending w tok ?P ?H))) tok
      = Some (?H - ?H * ?P / 100)"
    using ok by (simp add: Let_def update_conv')
  have rest: "\<forall>p \<in> set (xs3 @ xs4). pendingToken p \<noteq> tok"
    using xs3(2) xs4(2) by auto
  have "foldl (settle env) ?s0 (snd ?sp4)
      = foldl (settle env) (settle env ?mid (PartialSellPending w tok ?P ?H)) (xs3 @ xs4)"
    by (simp only: pend foldl_append foldl_Cons)
  then have "map_of (botBalances (foldl (settle env) ?s0 (snd ?sp4))) tok
      = Some (?H - ?H * ?P / 100)"
    using foldl_settle_other_tokens[OF rest] settled by (simp only:)
  then show ?thesis
    by (simp add: compareBalances_def finishPass_def Let_def disp)
qed

lemma pass_full_sell_ledger:
  assumes dist: "distinct (keys old)" and mem: "tok \<in> set (keys old)"
    and full: "fullSellBranch st new tok"
    and nopartial: "\<not> (get_or0 new tok < get_or0 old tok \<and> 0 < get_or0 new tok)"
    and ok: "success (fst (executor env (ExecuteSwapSell tok solMint 100)))"
  shows "map_of (botBalances (compareBalances env st w old new)) tok = Some 0"
proof -
  let ?st0 = "st\<lparr>apiCallCounter := apiCallCounter st + 1\<rparr>"
  let ?sell = "sellStep env new"
  let ?sp0 = "foldl (tradeStep env w old new) (?st0, []) (keys new)"
  from mem obtain ts1 ts2 where split: "keys old = ts1 @ tok # ts2"
    by (auto dest: split_list)
  with dist have notin: "tok \<notin> set ts1" "tok \<notin> set ts2" by auto
  from full have "has (botBalances st) tok"
    by (auto simp: fullSellBranch_def has_def get_or0_def split: option.splits)
  then have "has (botBalances (fst (?st0, []::pending list))) tok" by simp
  from foldl_tradeStep_without_pending[OF this nopartial, where env = env and w = w
      and ts = "keys new"]
  obtain xs0 where xs0: "snd ?sp0 = xs0" "\<forall>p \<in> set xs0. pendingToken p \<noteq> tok"
    by auto
  let ?sp1 = "foldl ?sell ?sp0 ts1"
  let ?sp2 = "?sell ?sp1 tok"
  let ?sp3 = "foldl ?sell ?sp2 ts2"
  obtain xs1 where xs1: "snd ?sp1 = snd ?sp0 @ xs1" "\<forall>p \<in> set xs1. pendingToken p \<noteq> tok"
    using foldl_sellStep_pending[where tok = tok and ts = ts1 and sp = ?sp0 and new = new
        and env = env] notin(1) by auto
  have "botBalances (fst ?sp1) = botBalances st"
    by (simp add: foldl_sellStep_botBalances foldl_tradeStep_botBalances)
  then have "fullSellBranch (fst ?sp1) new tok"
    using full fullSellBranch_cong by blast
  then have sp2: "snd ?sp2 = snd ?sp1 @ [FullSellPending tok]"
    by (simp add: sellStep_def Let_def)
  obtain xs3 where xs3: "snd ?sp3 = snd ?sp2 @ xs3" "\<forall>p \<in> set xs3. pendingToken p \<noteq> tok"
    using foldl_sellStep_pending[where tok = tok and ts = ts2 and sp = ?sp2 and new = new
        and env = env] notin(2) by auto
  have disp: "dispatchPass env st w old new = ?sp3"
    by (simp add: dispatchPass_def Let_def split)
  have pend: "snd ?sp3 = (xs0 @ xs1) @ FullSellPending tok # xs3"
    using xs0(1) xs1(1) sp2 xs3(1) by simp
  let ?s0 = "(fst ?sp3)\<lparr>previousBalances := new\<rparr>"
  let ?mid = "foldl (settle env) ?s0 (xs0 @ xs1)"
  have settled: "map_of (botBalances (settle env ?mid (FullSellPending tok))) tok = Some 0"
    using ok by (simp add: Let_def update_conv')
  have "foldl (settle env) ?s0 (snd ?sp3)
      = foldl (settle env) (settle env ?mid (FullSellPending tok)) xs3"
    by (simp only: pend foldl_append foldl_Cons)
  then have "map_of (botBalances (foldl (settle env) ?s0 (snd ?sp3))) tok = Some 0"
    using foldl_settle_other_tokens[OF xs3(2)] settled by (simp only:)
  then show ?thesis
    by (simp add: compareBalances_def finishPass_def Let_def disp)
qed

text \<open>
  C6. The claim: after any swap whose outcome has \<^verbatim>\<open>success: false\<close>, buy or sell, the
  ledger is unchanged, \<open>totalTrades\<close> has grown by one, the latency is appended and
  \<open>successfulTrades\<close> is unchanged. The code on a failed buy (old map empty, new balance
  50 of T, executor answering \<^verbatim>\<open>success: false\<close> after 95 ms): the buy is dispatched
  and counted in \<open>tradeCount\<close>, but \<^verbatim>\<open>updatePerformanceMetrics\<close> is only called in the
  success branch of the buy, so the metrics are still those of \<open>resetMetrics\<close>.
\<close>

theorem failed_buy_not_recorded:
  "passCalls (envWith failing) (initialState [] []) ''W'' [] [(''T'', 50)]
     = [Swap (ExecuteSwapBuy solMint ''T'' 1000000)]
   \<and> failing (ExecuteSwapBuy solMint ''T'' 1000000)
     = (\<lparr>success = False, outAmount = 0, signature = None, dex = None\<rparr>, 95)
   \<and> metrics (compareBalances (envWith failing) (initialState [] []) ''W'' [] [(''T'', 50)])
     = \<lparr>latencies = [], successfulTrades = 0, totalTrades = 0, apiCallCount = 0\<rparr>
   \<and> botBalances (compareBalances (envWith failing) (initialState [] []) ''W'' [] [(''T'', 50)])
     = []
   \<and> tradeCount (compareBalances (envWith failing) (initialState [] []) ''W'' [] [(''T'', 50)]) = 1"
  by (simp add: compareBalances_def dispatchPass_def finishPass_def keys_def tradeStep_def
        sellStep_def tradeBranch_def fullSellBranch_def get_or0_def has_def initialState_def
        envWith_def succeeding_def failing_def decreasePercent_def passCalls_def kinds_def
        updatePerformanceMetrics_def resetMetrics_def)

text \<open>The two sell continuations do what the claim says on a failure, and the buy
  continuation leaves the whole state as it was.\<close>

lemma failed_sell_recorded:
  assumes "\<not> success (fst (executor env (ExecuteSwapSell tok solMint P)))"
  shows "botBalances (settle env st (PartialSellPending w tok P H)) = botBalances st
       \<and> metrics (settle env st (PartialSellPending w tok P H))
           = updatePerformanceMetrics (tradeCount st)
               (snd (executor env (ExecuteSwapSell tok solMint P))) False (metrics st)"
  using assms by (simp add: Let_def)

lemma failed_full_sell_recorded:
  assumes "\<not> success (fst (executor env (ExecuteSwapSell tok solMint 100)))"
  shows "botBalances (settle env st (FullSellPending tok)) = botBalances st
       \<and> metrics (settle env st (FullSellPending tok))
           = updatePerformanceMetrics (tradeCount st)
               (snd (executor env (ExecuteSwapSell tok solMint 100))) False (metrics st)"
  using assms by (simp add: Let_def)

lemma failed_buy_leaves_state:
  assumes "\<not> success (fst (executor env (ExecuteSwapBuy solMint tok (TRADE_AMOUNT_LAMPORTS env))))"
  shows "settle env st (BuyPending w tok) = st"
  using assms by (simp add: Let_def)

lemma successful_full_sell_leaves_metrics:
  assumes "success (fst (executor env (ExecuteSwapSell tok solMint 100)))"
  shows "metrics (settle env st (FullSellPending tok)) = metrics st"
  using assms by (simp add: Let_def)

text \<open>
  C7. The claim: \<open>totalTrades\<close> equals the number of swap commands dispatched since the
  last reset. The code on a successful full sell (T leaves the tracked wallet, the bot
  holds 10): one sell is dispatched and \<open>tradeCount\<close> becomes 1, but the success branch
  of the full sell never calls \<^verbatim>\<open>updatePerformanceMetrics\<close>, so \<open>totalTrades\<close> stays 0.
\<close>

theorem successful_full_sell_not_counted:
  "passCalls (envWith succeeding) (initialState [(''T'', 30)] [(''T'', 10)]) ''W''
        [(''T'', 30)] []
     = [Swap (ExecuteSwapSell ''T'' solMint 100),
        SendWalletNotification ''SELL'' ''W'' ''T'',
        SendBotNotification ''SELL'' ''B'' ''T'']
   \<and> totalTrades (metrics (compareBalances (envWith succeeding)
        (initialState [(''T'', 30)] [(''T'', 10)]) ''W'' [(''T'', 30)] [])) = 0
   \<and> tradeCount (compareBalances (envWith succeeding)
        (initialState [(''T'', 30)] [(''T'', 10)]) ''W'' [(''T'', 30)] []) = 1"
  by (simp add: compareBalances_def dispatchPass_def finishPass_def keys_def tradeStep_def
        sellStep_def tradeBranch_def fullSellBranch_def get_or0_def has_def initialState_def
        envWith_def succeeding_def failing_def decreasePercent_def passCalls_def kinds_def
        updatePerformanceMetrics_def resetMetrics_def)

text \<open>The second half of the claim holds: a pass keeps
  \<open>successfulTrades \<le> totalTrades\<close>.\<close>

lemma update_keeps_order:
  "successfulTrades m \<le> totalTrades m \<Longrightarrow>
   successfulTrades (updatePerformanceMetrics c l s m)
     \<le> totalTrades (updatePerformanceMetrics c l s m)"
  by (simp add: updatePerformanceMetrics_def)

lemma settle_keeps_order:
  "successfulTrades (metrics st) \<le> totalTrades (metrics st) \<Longrightarrow>
   successfulTrades (metrics (settle env st p)) \<le> totalTrades (metrics (settle env st p))"
  by (cases p) (simp_all add: Let_def update_keeps_order)

lemma foldl_settle_keeps_order:
  "successfulTrades (metrics st) \<le> totalTrades (metrics st) \<Longrightarrow>
   successfulTrades (metrics (foldl (settle env) st ps))
     \<le> totalTrades (metrics (foldl (settle env) st ps))"
  by (induction ps arbitrary: st) (simp_all add: settle_keeps_order)

lemma tradeStep_metrics: "metrics (fst (tradeStep env w old new sp t)) = metrics (fst sp)"
  by (simp add: tradeStep_def Let_def split: option.split kind.split)

lemma foldl_tradeStep_metrics:
  "metrics (fst (foldl (tradeStep env w old new) sp ts)) = metrics (fst sp)"
  by (induction ts arbitrary: sp) (simp_all add: tradeStep_metrics)

lemma sellStep_metrics: "metrics (fst (sellStep env new sp t)) = metrics (fst sp)"
  by (simp add: sellStep_def Let_def)

lemma foldl_sellStep_metrics:
  "metrics (fst (foldl (sellStep env new) sp ts)) = metrics (fst sp)"
  by (induction ts arbitrary: sp) (simp_all add: sellStep_metrics)

lemma pass_keeps_order:
  assumes "successfulTrades (metrics st) \<le> totalTrades (metrics st)"
  shows "successfulTrades (metrics (compareBalances env st w old new))
           \<le> totalTrades (metrics (compareBalances env st w old new))"
proof -
  have "metrics (fst (dispatchPass env st w old new)) = metrics st"
    by (simp add: dispatchPass_def Let_def foldl_sellStep_metrics foldl_tradeStep_metrics)
  with assms have "successfulTrades (metrics (foldl (settle env)
        ((fst (dispatchPass env st w old new))\<lparr>previousBalances := new\<rparr>)
        (snd (dispatchPass env st w old new))))
      \<le> totalTrades (metrics (foldl (settle env)
        ((fst (dispatchPass env st w old new))\<lparr>previousBalances := new\<rparr>)
        (snd (dispatchPass env st w old new))))"
    by (intro foldl_settle_keeps_order) simp
  then show ?thesis
    by (simp add: compareBalances_def finishPass_def Let_def)
qed


text \<open>And \<open>totalTrades\<close> never grows by more than the number of swaps a pass
  dispatches (the growth of \<open>tradeCount\<close>); the theorem above shows it can grow by
  less.\<close>

lemma tradeStep_counts:
  "tradeCount (fst (tradeStep env w old new sp t)) + length (snd sp)
     = tradeCount (fst sp) + length (snd (tradeStep env w old new sp t))"
  by (simp add: tradeStep_def Let_def split: option.split kind.split)

lemma foldl_tradeStep_counts:
  "tradeCount (fst (foldl (tradeStep env w old new) sp ts)) + length (snd sp)
     = tradeCount (fst sp) + length (snd (foldl (tradeStep env w old new) sp ts))"
proof (induction ts arbitrary: sp)
  case Nil
  then show ?case by simp
next
  case (Cons t ts)
  from Cons.IH[of "tradeStep env w old new sp t"] tradeStep_counts[of env w old new sp t]
  show ?case by simp
qed

lemma sellStep_counts:
  "tradeCount (fst (sellStep env new sp t)) + length (snd sp)
     = tradeCount (fst sp) + length (snd (sellStep env new sp t))"
  by (simp add: sellStep_def Let_def)

lemma foldl_sellStep_counts:
  "tradeCount (fst (foldl (sellStep env new) sp ts)) + length (snd sp)
     = tradeCount (fst sp) + length (snd (foldl (sellStep env new) sp ts))"
proof (induction ts arbitrary: sp)
  case Nil
  then show ?case by simp
next
  case (Cons t ts)
  from Cons.IH[of "sellStep env new sp t"] sellStep_counts[of env new sp t]
  show ?case by simp
qed

lemma dispatch_counts:
  "tradeCount (fst (dispatchPass env st w old new))
     = tradeCount st + length (snd (dispatchPass env st w old new))"
  using foldl_tradeStep_counts[of env w old new "(st\<lparr>apiCallCounter := apiCallCounter st + 1\<rparr>, [])" "keys new"]
    foldl_sellStep_counts[of env new
      "foldl (tradeStep env w old new) (st\<lparr>apiCallCounter := apiCallCounter st + 1\<rparr>, []) (keys new)"
      "keys old"]
  by (simp add: dispatchPass_def Let_def)

lemma settle_counts:
  "tradeCount (settle env st p) = tradeCount st
   \<and> totalTrades (metrics (settle env st p)) \<le> totalTrades (metrics st) + 1"
  by (cases p) (simp_all add: Let_def updatePerformanceMetrics_def)

lemma foldl_settle_counts:
  "tradeCount (foldl (settle env) st ps) = tradeCount st
   \<and> totalTrades (metrics (foldl (settle env) st ps)) \<le> totalTrades (metrics st) + length ps"
proof (induction ps arbitrary: st)
  case Nil
  then show ?case by simp
next
  case (Cons p ps)
  from Cons.IH[of "settle env st p"] settle_counts[of env st p]
  show ?case by simp
qed

lemma totalTrades_at_most_dispatched:
  "totalTrades (metrics (compareBalances env st w old new)) + tradeCount st
     \<le> totalTrades (metrics st) + tradeCount (compareBalances env st w old new)"
proof -
  let ?d = "dispatchPass env st w old new"
  have m: "metrics (fst ?d) = metrics st"
    by (simp add: dispatchPass_def Let_def foldl_sellStep_metrics foldl_tradeStep_metrics)
  from foldl_settle_counts[of env "(fst ?d)\<lparr>previousBalances := new\<rparr>" "snd ?d"] m
    dispatch_counts[of env st w old new]
  show ?thesis
    by (simp add: compareBalances_def finishPass_def Let_def)
qed

section \<open>Increases\<close>

text \<open>The dispatch order is one completion order, so what holds for
  \<open>compareBalancesIn\<close> and every completion order holds for \<open>compareBalances\<close>.\<close>

lemma compareBalances_in:
  "compareBalances env st w old new
     = compareBalancesIn (snd (dispatchPass env st w old new)) env st w old new"
  by (simp add: compareBalances_def compareBalancesIn_def Let_def)

lemma passCalls_in:
  "passCalls env st w old new
     = passCallsIn (snd (dispatchPass env st w old new)) env st w old new"
  by (simp add: passCalls_def passCallsIn_def compareBalances_in)

lemma completionOrder_dispatch:
  "completionOrder env st w old new (snd (dispatchPass env st w old new))"
  by (simp add: completionOrder_def)


text \<open>The increase branch of the older pass in general: the buy is issued before its
  result is read.\<close>

lemma legacy_increase_branch:
  assumes "\<not> isFirstRun ls"
    and "js_gt (nullish0 latest tok) (nullish0 prev tok)"
    and "\<not> (js_eq (nullish0 prev tok) (Some 0) \<and> js_gt (nullish0 latest tok) (Some 0))"
  shows "\<exists>rest. issued (legacyStep env trader w prev latest ls tok)
           = issued ls
             @ Swap (ExecuteSwapBuy solMint tok (TRADE_AMOUNT_LAMPORTS env * (25 / 100))) # rest"
  using assms by (auto simp: legacyStep_def Let_def)






















section \<open>Replaying a pass\<close>









end
